theory Spec2Isabelle
  imports Main
begin

section \<open>The static-IP-setting feature of the guest agent (feature/FeatureIPSetting.go)\<close>

text \<open>
  A shallow embedding of \<^verbatim>\<open>FeatureIPSetting.go\<close>. Go strings are byte strings and are
  modelled as \<^typ>\<open>string\<close>. A Go \<^verbatim>\<open>error\<close> is a value carrying its message; the nil
  error is \<^term>\<open>None\<close> (or the \<^term>\<open>Inr\<close> side of a result).

  Everything the code does besides computing a value (calls on the store client, lines
  written to the logger, the start of the goroutine, the wait for the ticker) is recorded,
  in program order, in a list of effects that each function returns.
\<close>

subsection \<open>Data model\<close>

datatype error = Error string

type_synonym OSType = int

definition OTHER :: OSType where
  "OTHER = 0"

definition CENTOS :: OSType where
  "CENTOS = 1"

text \<open>
  The store client is an interface implemented outside this file. It is modelled as the
  answers it gives while one function of the feature runs: \<open>Read\<close> and \<open>Directory\<close> per
  key, \<open>Watch\<close> per key and token, \<open>WatchEvent\<close> per key. The value returned by \<open>Write\<close>
  is never inspected by the feature, so only the call itself is recorded as an effect.
\<close>

record XenStoreClient =
  Read :: "string \<Rightarrow> error + string"
  Directory :: "string \<Rightarrow> error + string"
  Watch :: "string \<Rightarrow> string \<Rightarrow> error option"
  WatchEvent :: "string \<Rightarrow> string \<times> bool"

record FeatureIPSetting =
  Client :: XenStoreClient
  Enabled :: bool
  Debug :: bool

definition advertiseKey :: string where
  "advertiseKey = ''control/feature-static-ip-setting''"

definition controlKey :: string where
  "controlKey = ''xenserver/device/vif''"

definition token :: string where
  "token = ''FeatureIPSetting''"

definition macSubKey :: string where
  "macSubKey = ''/static-ip-setting/mac''"

definition ipenabledSubKey :: string where
  "ipenabledSubKey = ''/static-ip-setting/enabled''"

definition ipv6enabledSubKey :: string where
  "ipv6enabledSubKey = ''/static-ip-setting/enabled6''"

definition addressSubKey :: string where
  "addressSubKey = ''/static-ip-setting/address''"

definition gatewaySubKey :: string where
  "gatewaySubKey = ''/static-ip-setting/gateway''"

definition address6SubKey :: string where
  "address6SubKey = ''/static-ip-setting/address6''"

definition gateway6SubKey :: string where
  "gateway6SubKey = ''/static-ip-setting/gateway6''"

text \<open>One constructor per \<^verbatim>\<open>f.logger.Printf\<close> call of the source, with its arguments.\<close>

datatype log_line =
    GetChildrens_failed error
  | Set_IP_on_Centos string string
  | Set_IP_on_Other_OS string string
  | ParseCIDR_failed string string
  | Set_IP_failed string
  | Set_gateway_on_Centos string
  | Set_gateway_on_other_OS string
  | Invalid_gateway string
  | Set_gateway_failed string
  | Watch_error string error
  | Start_watch string
  | Start_checking_key string
  | Get_mac_failed string error

datatype effect =
    Call_Write string string
  | Call_Read string
  | Call_Directory string
  | Call_Watch string string
  | Call_WatchEvent string
  | Printf log_line
  | Call_ConfigStaticIP string string bool OSType
  | Go_loop
  | Wait_ticker

subsection \<open>Library functions of Go used by the feature\<close>

text \<open>
  \<^verbatim>\<open>strings.Split(s, sep)\<close> for a separator of one byte: the pieces of \<open>s\<close> between the
  occurrences of the separator, in order; one piece more than there are separators, so
  the empty string yields one empty piece.
\<close>

fun Split :: "char \<Rightarrow> string \<Rightarrow> string list" where
  "Split c [] = [[]]"
| "Split c (x # xs) =
     (if x = c then [] # Split c xs
      else (case Split c xs of [] \<Rightarrow> [[x]] | t # ts \<Rightarrow> (x # t) # ts))"

definition NUL :: char where
  "NUL = CHR 0x00"

text \<open>The inverse direction, used to state what a listing contains: tokens joined by a separator.\<close>

fun Join :: "char \<Rightarrow> string list \<Rightarrow> string" where
  "Join c [] = []"
| "Join c [t] = t"
| "Join c (t # u # ts) = t @ c # Join c (u # ts)"

subsection \<open>Enable\<close>

definition Enable :: "FeatureIPSetting \<Rightarrow> effect list" where
  "Enable f =
     (if Enabled f then [Call_Write advertiseKey ''1'']
      else [Call_Write advertiseKey ''0''])"

subsection \<open>GetChildrens\<close>

text \<open>The \<^verbatim>\<open>for _, subkey := range subkeys\<close> loop, with \<open>childrens\<close> as the accumulator.\<close>

fun append_childrens :: "string list \<Rightarrow> string list \<Rightarrow> string list" where
  "append_childrens childrens [] = childrens"
| "append_childrens childrens (subkey # subkeys) =
     (if length subkey \<noteq> 0
      then append_childrens (childrens @ [controlKey @ ''/'' @ subkey]) subkeys
      else append_childrens childrens subkeys)"

text \<open>The parameter \<open>key\<close> is not used by the source: the listing is always that of \<open>controlKey\<close>.\<close>

definition GetChildrens :: "FeatureIPSetting \<Rightarrow> string \<Rightarrow> effect list \<times> string list" where
  "GetChildrens f key =
     (case Directory (Client f) controlKey of
        Inl err \<Rightarrow> ([Call_Directory controlKey, Printf (GetChildrens_failed err)], [])
      | Inr value \<Rightarrow> ([Call_Directory controlKey], append_childrens [] (Split NUL value)))"

subsection \<open>More library functions of Go: trimming and cutting strings\<close>

text \<open>
  \<^verbatim>\<open>strings.TrimSpace\<close> removes, from both ends, every code point that
  \<^verbatim>\<open>unicode.IsSpace\<close> accepts. On the bytes of a string these are the six ASCII
  characters below and the UTF-8 encodings of U+0085, U+00A0, U+1680, U+2000 to U+200A,
  U+2028, U+2029, U+202F, U+205F and U+3000. A byte sequence that is not a valid encoding
  decodes to the replacement character, which is not a space.
\<close>

definition asciiSpace :: "char \<Rightarrow> bool" where
  "asciiSpace c =
     (c = CHR 0x09 \<or> c = CHR 0x0A \<or> c = CHR 0x0B \<or> c = CHR 0x0C \<or> c = CHR 0x0D \<or> c = CHR 0x20)"

definition space2 :: "char \<Rightarrow> char \<Rightarrow> bool" where
  "space2 a b = (a = CHR 0xC2 \<and> (b = CHR 0x85 \<or> b = CHR 0xA0))"

definition space3 :: "char \<Rightarrow> char \<Rightarrow> char \<Rightarrow> bool" where
  "space3 a b c =
     ((a = CHR 0xE1 \<and> b = CHR 0x9A \<and> c = CHR 0x80) \<or>
      (a = CHR 0xE2 \<and> b = CHR 0x80 \<and>
         (((128::nat) \<le> of_char c \<and> (of_char c :: nat) \<le> 138) \<or>
          c = CHR 0xA8 \<or> c = CHR 0xA9 \<or> c = CHR 0xAF)) \<or>
      (a = CHR 0xE2 \<and> b = CHR 0x81 \<and> c = CHR 0x9F) \<or>
      (a = CHR 0xE3 \<and> b = CHR 0x80 \<and> c = CHR 0x80))"

fun trimLeftSpace :: "string \<Rightarrow> string" where
  "trimLeftSpace (a # b # c # s) =
     (if asciiSpace a then trimLeftSpace (b # c # s)
      else if space2 a b then trimLeftSpace (c # s)
      else if space3 a b c then trimLeftSpace s
      else a # b # c # s)"
| "trimLeftSpace [a, b] =
     (if asciiSpace a then trimLeftSpace [b]
      else if space2 a b then []
      else [a, b])"
| "trimLeftSpace [a] = (if asciiSpace a then [] else [a])"
| "trimLeftSpace [] = []"

text \<open>The same from the right end, on the reversed string: \<open>c\<close> is the last byte.\<close>

fun trimRightSpace_rev :: "string \<Rightarrow> string" where
  "trimRightSpace_rev (c # b # a # s) =
     (if asciiSpace c then trimRightSpace_rev (b # a # s)
      else if space2 b c then trimRightSpace_rev (a # s)
      else if space3 a b c then trimRightSpace_rev s
      else c # b # a # s)"
| "trimRightSpace_rev [c, b] =
     (if asciiSpace c then trimRightSpace_rev [b]
      else if space2 b c then []
      else [c, b])"
| "trimRightSpace_rev [c] = (if asciiSpace c then [] else [c])"
| "trimRightSpace_rev [] = []"

definition TrimSpace :: "string \<Rightarrow> string" where
  "TrimSpace s = rev (trimRightSpace_rev (rev (trimLeftSpace s)))"

text \<open>
  \<^verbatim>\<open>strings.Trim(s, cutset)\<close> for a cutset of one ASCII character: every leading and
  every trailing occurrence of the character is removed.
\<close>

definition Trim :: "string \<Rightarrow> char \<Rightarrow> string" where
  "Trim s c = rev (dropWhile (\<lambda>x. x = c) (rev (dropWhile (\<lambda>x. x = c) s)))"

definition dquote :: char where
  "dquote = CHR 0x22"

text \<open>\<^verbatim>\<open>strings.Contains(s, sep)\<close> and \<^verbatim>\<open>strings.SplitN(s, sep, 2)\<close> for a separator of one byte.\<close>

definition Contains :: "string \<Rightarrow> char \<Rightarrow> bool" where
  "Contains s c = (c \<in> set s)"

definition SplitN2 :: "string \<Rightarrow> char \<Rightarrow> string list" where
  "SplitN2 s c =
     (if c \<in> set s then [takeWhile (\<lambda>x. x \<noteq> c) s, tl (dropWhile (\<lambda>x. x \<noteq> c) s)]
      else [s])"

text \<open>
  \<^verbatim>\<open>net.ParseCIDR\<close> and \<^verbatim>\<open>net.ParseIP\<close> belong to Go's library. The feature only
  prints what they return, so they are parameters of the model: \<open>ParseCIDR\<close> yields the
  message of its error, or the printed forms of the address and of the network;
  \<open>ParseIP\<close> yields the printed form of the address, or nothing (Go's nil).
\<close>

record netlib =
  ParseCIDR :: "string \<Rightarrow> string + (string \<times> string)"
  ParseIP :: "string \<Rightarrow> string option"

subsection \<open>GetCurrentOSType\<close>

text \<open>
  The descriptor file is given as what the code observes of it: \<open>None\<close> when
  \<^verbatim>\<open>os.OpenFile\<close> fails, otherwise the lines that \<^verbatim>\<open>scanner.Scan()\<close> delivers before
  it returns false. The result \<open>None\<close> stands for a run-time panic (an index out of
  range on \<open>parts\<close>).
\<close>

fun scan_lines :: "string list \<Rightarrow> OSType option" where
  "scan_lines [] = Some OTHER"
| "scan_lines (line # rest) =
     (if Contains line (CHR ''='') then
        (case SplitN2 line (CHR ''='') of
           p0 # p1 # _ \<Rightarrow>
             (let k = TrimSpace p0;
                  v = TrimSpace (Trim (TrimSpace p1) dquote)
              in if k = ''os_distro'' \<and> v = ''centos'' then Some CENTOS
                 else scan_lines rest)
         | _ \<Rightarrow> None)
      else scan_lines rest)"

definition GetCurrentOSType :: "string list option \<Rightarrow> OSType option" where
  "GetCurrentOSType distributionFile =
     (case distributionFile of
        None \<Rightarrow> Some OTHER
      | Some lines \<Rightarrow> scan_lines lines)"

text \<open>
  The line test of the loop above, as a predicate: the line holds an equals sign, the
  text before the first one is \<open>os_distro\<close> once spaces are trimmed, and the text after
  it is \<open>centos\<close> once spaces, then all double quotes at both ends, then spaces again
  are trimmed.
\<close>

definition names_centos :: "string \<Rightarrow> bool" where
  "names_centos line =
     (CHR ''='' \<in> set line \<and>
      TrimSpace (takeWhile (\<lambda>x. x \<noteq> CHR ''='') line) = ''os_distro'' \<and>
      TrimSpace (Trim (TrimSpace (tl (dropWhile (\<lambda>x. x \<noteq> CHR ''='') line))) dquote) = ''centos'')"

text \<open>
  The classifier as the specification words it, for comparison with the code: the value
  loses its surrounding whitespace and one layer of double quotes, that is at most one
  quote at each end.
\<close>

definition trim_one_layer :: "string \<Rightarrow> char \<Rightarrow> string" where
  "trim_one_layer s c =
     (let s1 = (case s of [] \<Rightarrow> [] | x # r \<Rightarrow> if x = c then r else s)
      in if s1 \<noteq> [] \<and> last s1 = c then butlast s1 else s1)"

fun classify_lines_as_specified :: "string list \<Rightarrow> OSType" where
  "classify_lines_as_specified [] = OTHER"
| "classify_lines_as_specified (line # rest) =
     (if CHR ''='' \<in> set line \<and>
         TrimSpace (takeWhile (\<lambda>x. x \<noteq> CHR ''='') line) = ''os_distro'' \<and>
         TrimSpace (trim_one_layer (TrimSpace (tl (dropWhile (\<lambda>x. x \<noteq> CHR ''='') line))) dquote)
           = ''centos''
      then CENTOS
      else classify_lines_as_specified rest)"

definition classify_as_specified :: "string list option \<Rightarrow> OSType" where
  "classify_as_specified distributionFile =
     (case distributionFile of
        None \<Rightarrow> OTHER
      | Some lines \<Rightarrow> classify_lines_as_specified lines)"

subsection \<open>ConfigStaticIP\<close>

definition Error_msg :: "error \<Rightarrow> string" where
  "Error_msg err = (case err of Error msg \<Rightarrow> msg)"

definition ConfigStaticIP ::
  "netlib \<Rightarrow> FeatureIPSetting \<Rightarrow> string \<Rightarrow> string \<Rightarrow> bool \<Rightarrow> OSType \<Rightarrow> effect list \<times> error option"
where
  "ConfigStaticIP net f vifKey mac isIPv6 osType =
     (let addressKey = (if isIPv6 then vifKey @ address6SubKey else vifKey @ addressSubKey);
          gatewatKey = (if isIPv6 then vifKey @ gateway6SubKey else vifKey @ gatewaySubKey)
      in
        (Call_Read addressKey #
         (case Read (Client f) addressKey of
            Inr address \<Rightarrow>
              (case ParseCIDR net address of
                 Inr (ip, ipNet) \<Rightarrow>
                   (if osType = CENTOS then [Printf (Set_IP_on_Centos ip ipNet)]
                    else [Printf (Set_IP_on_Other_OS ip ipNet)])
               | Inl msg \<Rightarrow> [Printf (ParseCIDR_failed address msg)])
          | Inl err \<Rightarrow> [Printf (Set_IP_failed (Error_msg err))]) @
         Call_Read gatewatKey #
         (case Read (Client f) gatewatKey of
            Inr gateway \<Rightarrow>
              (case ParseIP net gateway of
                 Some gatewayAddress \<Rightarrow>
                   (if osType = CENTOS then [Printf (Set_gateway_on_Centos gatewayAddress)]
                    else [Printf (Set_gateway_on_other_OS gatewayAddress)])
               | None \<Rightarrow> [Printf (Invalid_gateway gateway)])
          | Inl err \<Rightarrow> [Printf (Set_gateway_failed (Error_msg err))]),
         None))"

subsection \<open>Run and its background loop\<close>

text \<open>
  The body of \<^verbatim>\<open>for _, subkey := range childrens\<close>. A call of \<open>ConfigStaticIP\<close> is
  recorded with its arguments, followed by the effects of the call; the value it returns
  is dropped, as in the source.
\<close>

definition check_key :: "netlib \<Rightarrow> FeatureIPSetting \<Rightarrow> OSType \<Rightarrow> string \<Rightarrow> effect list" where
  "check_key net f osType subkey =
     (let macKey = subkey @ macSubKey in
      Printf (Start_checking_key subkey) # Call_Read macKey #
      (case Read (Client f) macKey of
         Inl err \<Rightarrow> [Printf (Get_mac_failed macKey err)]
       | Inr mac \<Rightarrow>
           (let ipenabledKey = subkey @ ipenabledSubKey;
                ipv6enabledKey = subkey @ ipv6enabledSubKey
            in
              Call_Read ipenabledKey #
              (case Read (Client f) ipenabledKey of
                 Inr ipenabled \<Rightarrow>
                   (if ipenabled = ''1''
                    then Call_ConfigStaticIP subkey mac False osType #
                         fst (ConfigStaticIP net f subkey mac False osType)
                    else [])
               | Inl err \<Rightarrow> []) @
              Call_Read ipv6enabledKey #
              (case Read (Client f) ipv6enabledKey of
                 Inr ipv6enabled \<Rightarrow>
                   (if ipv6enabled = ''1''
                    then Call_ConfigStaticIP subkey mac True osType #
                         fst (ConfigStaticIP net f subkey mac True osType)
                    else [])
               | Inl err \<Rightarrow> []))))"

fun check_keys :: "netlib \<Rightarrow> FeatureIPSetting \<Rightarrow> OSType \<Rightarrow> string list \<Rightarrow> effect list" where
  "check_keys net f osType [] = []"
| "check_keys net f osType (subkey # childrens) =
     check_key net f osType subkey @ check_keys net f osType childrens"

text \<open>What runs when \<open>WatchEvent\<close> reports a change: discovery, then every child in order.\<close>

definition scan :: "netlib \<Rightarrow> FeatureIPSetting \<Rightarrow> OSType \<Rightarrow> effect list" where
  "scan net f osType =
     (case GetChildrens f controlKey of
        (es, childrens) \<Rightarrow> es @ check_keys net f osType childrens)"

text \<open>One pass through the body of the \<^verbatim>\<open>for { ... }\<close> loop of the goroutine.\<close>

definition iteration :: "netlib \<Rightarrow> FeatureIPSetting \<Rightarrow> OSType \<Rightarrow> effect list" where
  "iteration net f osType =
     Enable f @
     Call_WatchEvent controlKey #
     (if snd (WatchEvent (Client f) controlKey) then scan net f osType else []) @
     [Wait_ticker]"

text \<open>
  The loop never ends. Its effects are given for the first passes: one answering
  store client per pass, in order (the store is changed by the host between passes).
\<close>

fun loop :: "netlib \<Rightarrow> FeatureIPSetting \<Rightarrow> OSType \<Rightarrow> XenStoreClient list \<Rightarrow> effect list" where
  "loop net f osType [] = []"
| "loop net f osType (c # cs) =
     iteration net (f\<lparr>Client := c\<rparr>) osType @ loop net f osType cs"

text \<open>The goroutine: the operating system is classified once, then the loop runs.\<close>

definition background ::
  "netlib \<Rightarrow> FeatureIPSetting \<Rightarrow> string list option \<Rightarrow> XenStoreClient list \<Rightarrow> effect list option"
where
  "background net f distributionFile cs =
     (case GetCurrentOSType distributionFile of
        None \<Rightarrow> None
      | Some osType \<Rightarrow> Some (loop net f osType cs))"

text \<open>
  \<open>Run\<close> itself: its effects up to its return, and the error it returns. \<open>Go_loop\<close>
  records the \<^verbatim>\<open>go func() { ... }()\<close> statement, whose body is \<open>background\<close>.
\<close>

definition Run :: "FeatureIPSetting \<Rightarrow> effect list \<times> error option" where
  "Run f =
     (case Watch (Client f) controlKey token of
        Some err \<Rightarrow>
          ([Call_Watch controlKey token, Printf (Watch_error controlKey err)], Some err)
      | None \<Rightarrow>
          ([Call_Watch controlKey token, Printf (Start_watch controlKey), Go_loop], None))"

subsection \<open>Observations on effects\<close>

fun is_Call_Write :: "effect \<Rightarrow> bool" where
  "is_Call_Write (Call_Write key v) = True"
| "is_Call_Write _ = False"

text \<open>A call of \<open>ConfigStaticIP\<close> for the interface \<open>k\<close> and the family \<open>v6\<close>.\<close>

fun call_for :: "string \<Rightarrow> bool \<Rightarrow> effect \<Rightarrow> bool" where
  "call_for k v6 (Call_ConfigStaticIP vifKey mac isIPv6 osType) = (vifKey = k \<and> isIPv6 = v6)"
| "call_for k v6 _ = False"

text \<open>A call of \<open>ConfigStaticIP\<close> for the interface \<open>k\<close>, of either family.\<close>

fun call_on :: "string \<Rightarrow> effect \<Rightarrow> bool" where
  "call_on k (Call_ConfigStaticIP vifKey mac isIPv6 osType) = (vifKey = k)"
| "call_on k _ = False"

text \<open>
  The configuration actions of \<open>ConfigStaticIP\<close>: in the source they are the two lines
  that report the address, and the two that report the gateway, as set.
\<close>

fun is_Set_IP :: "effect \<Rightarrow> bool" where
  "is_Set_IP (Printf (Set_IP_on_Centos ip ipNet)) = True"
| "is_Set_IP (Printf (Set_IP_on_Other_OS ip ipNet)) = True"
| "is_Set_IP _ = False"

fun is_Set_gateway :: "effect \<Rightarrow> bool" where
  "is_Set_gateway (Printf (Set_gateway_on_Centos a)) = True"
| "is_Set_gateway (Printf (Set_gateway_on_other_OS a)) = True"
| "is_Set_gateway _ = False"

subsection \<open>Concrete stores, used as examples\<close>

definition read_from :: "(string \<times> string) list \<Rightarrow> string \<Rightarrow> error + string" where
  "read_from kvs key =
     (case map_of kvs key of None \<Rightarrow> Inl (Error ''ENOENT'') | Some v \<Rightarrow> Inr v)"

text \<open>
  Interface 0 has IPv4 disabled and IPv6 enabled, with no IPv6 gateway; interface 1 has
  IPv4 enabled with an address that is no CIDR and a good gateway, and a stray IPv6 gateway
  that is no address; interface 2 has no MAC. The listing holds an empty token.
\<close>

definition demo_entries :: "(string \<times> string) list" where
  "demo_entries =
     [(''xenserver/device/vif/0/static-ip-setting/mac'', ''00:16:3e:00:00:01''),
      (''xenserver/device/vif/0/static-ip-setting/enabled'', ''0''),
      (''xenserver/device/vif/0/static-ip-setting/enabled6'', ''1''),
      (''xenserver/device/vif/0/static-ip-setting/address6'', ''fd00::2/64''),
      (''xenserver/device/vif/1/static-ip-setting/mac'', ''00:16:3e:00:00:02''),
      (''xenserver/device/vif/1/static-ip-setting/enabled'', ''1''),
      (''xenserver/device/vif/1/static-ip-setting/address'', ''not-an-ip''),
      (''xenserver/device/vif/1/static-ip-setting/gateway'', ''192.168.0.1''),
      (''xenserver/device/vif/1/static-ip-setting/gateway6'', ''bogus''),
      (''xenserver/device/vif/2/static-ip-setting/enabled'', ''1'')]"

definition demo_client :: XenStoreClient where
  "demo_client =
     \<lparr>Read = read_from demo_entries,
      Directory = (\<lambda>key. if key = ''xenserver/device/vif''
                          then Inr (Join NUL [''0'', [], ''1'', ''2''])
                          else Inl (Error ''ENOENT'')),
      Watch = (\<lambda>key tok. None),
      WatchEvent = (\<lambda>key. (key, True))\<rparr>"

definition broken_client :: XenStoreClient where
  "broken_client =
     \<lparr>Read = (\<lambda>key. Inl (Error ''EIO'')),
      Directory = (\<lambda>key. Inl (Error ''EIO'')),
      Watch = (\<lambda>key tok. Some (Error ''EIO'')),
      WatchEvent = (\<lambda>key. ([], False))\<rparr>"

definition demo_feature :: FeatureIPSetting where
  "demo_feature = \<lparr>Client = demo_client, Enabled = True, Debug = False\<rparr>"

definition broken_feature :: FeatureIPSetting where
  "broken_feature = \<lparr>Client = broken_client, Enabled = False, Debug = False\<rparr>"

definition demo_net :: netlib where
  "demo_net =
     \<lparr>ParseCIDR = (\<lambda>s. if s = ''192.168.0.2/24'' then Inr (''192.168.0.2'', ''192.168.0.0/24'')
                        else if s = ''fd00::2/64'' then Inr (''fd00::2'', ''fd00::/64'')
                        else Inl (''invalid CIDR address: '' @ s)),
      ParseIP = (\<lambda>s. if s = ''192.168.0.1'' \<or> s = ''fd00::1'' then Some s else None)\<rparr>"

text \<open>The same store with a listing that names interface 0 twice.\<close>

definition dup_client :: XenStoreClient where
  "dup_client =
     \<lparr>Read = read_from demo_entries,
      Directory = (\<lambda>key. if key = ''xenserver/device/vif''
                          then Inr (Join NUL [''0'', ''0''])
                          else Inl (Error ''ENOENT'')),
      Watch = (\<lambda>key tok. None),
      WatchEvent = (\<lambda>key. (key, True))\<rparr>"

definition dup_feature :: FeatureIPSetting where
  "dup_feature = \<lparr>Client = dup_client, Enabled = True, Debug = False\<rparr>"

subsection \<open>The loop in time\<close>

text \<open>
  A timed reading of the loop of the goroutine, in milliseconds from the moment
  \<^verbatim>\<open>time.Tick(4 * time.Second)\<close> is evaluated. The channel of the ticker holds at most
  one tick: a tick that fires while one is still unreceived is dropped. The state of the
  ticker is \<open>fire\<close>, the time of the earliest tick that is neither received nor dropped.
  A receive at time \<open>now\<close> returns at once when that tick has fired already, and the next
  tick to count is the first one after \<open>now\<close>; otherwise it returns when the tick fires.
\<close>

definition period :: nat where
  "period = 4000"

definition receive_tick :: "nat \<Rightarrow> nat \<Rightarrow> nat \<times> nat" where
  "receive_tick now fire =
     (if fire \<le> now then (now, fire + period * ((now - fire) div period + 1))
      else (fire, fire + period))"

text \<open>
  One pass per answer of \<open>WatchEvent\<close>, in the order of the loop body: the write takes no
  time, \<open>WatchEvent\<close> returns when its notification has arrived (at once when it arrived
  before), the scan runs if the answer is positive and takes \<open>work\<close> milliseconds, and the
  pass ends with the receive from the ticker. The result is the list of the times at which
  scans start. When the answers are used up \<open>WatchEvent\<close> blocks for good.
\<close>

fun timed_loop :: "nat \<Rightarrow> nat \<Rightarrow> (nat \<times> bool \<times> nat) list \<Rightarrow> nat list" where
  "timed_loop now fire [] = []"
| "timed_loop now fire ((arrival, ok, work) # events) =
     (if ok
      then max now arrival #
           timed_loop (fst (receive_tick (max now arrival + work) fire))
             (snd (receive_tick (max now arrival + work) fire)) events
      else timed_loop (fst (receive_tick (max now arrival) fire))
             (snd (receive_tick (max now arrival) fire)) events)"

definition scan_times :: "(nat \<times> bool \<times> nat) list \<Rightarrow> nat list" where
  "scan_times events = timed_loop 0 period events"

text \<open>
  The bound as the specification words it, for comparison with the code: at most one scan
  in any window of \<open>w\<close> milliseconds, that is successive scans at least \<open>w\<close> apart.
\<close>

fun one_scan_per_window :: "nat \<Rightarrow> nat list \<Rightarrow> bool" where
  "one_scan_per_window w [] = True"
| "one_scan_per_window w [t] = True"
| "one_scan_per_window w (t # u # ts) = (t + w \<le> u \<and> one_scan_per_window w (u # ts))"

text \<open>Five notifications within one second, the first after five seconds; a scan takes 1 ms.\<close>

definition burst :: "(nat \<times> bool \<times> nat) list" where
  "burst = [(5000, True, 1), (5200, True, 1), (5400, True, 1), (5600, True, 1), (5800, True, 1)]"

section \<open>Properties\<close>

subsection \<open>Discovery\<close>

lemma Split_not_Nil: "Split c s \<noteq> []"
  by (induction s) (auto split: list.splits)

lemma Split_no_sep: "c \<notin> set t \<Longrightarrow> Split c t = [t]"
  by (induction t) auto

lemma Split_append_sep:
  "c \<notin> set t \<Longrightarrow> Split c (t @ c # s) = t # Split c s"
  by (induction t) auto

lemma Split_Join:
  "ts \<noteq> [] \<Longrightarrow> \<forall>t \<in> set ts. c \<notin> set t \<Longrightarrow> Split c (Join c ts) = ts"
  by (induction c ts rule: Join.induct) (auto simp: Split_no_sep Split_append_sep)

lemma append_childrens_eq:
  "append_childrens acc ts =
     acc @ map (\<lambda>t. controlKey @ ''/'' @ t) (filter (\<lambda>t. t \<noteq> []) ts)"
  by (induction ts arbitrary: acc) auto

lemma children_of_listing:
  assumes "\<forall>t \<in> set ts. c \<notin> set t"
  shows "append_childrens [] (Split c (Join c ts)) =
           map (\<lambda>t. controlKey @ ''/'' @ t) (filter (\<lambda>t. t \<noteq> []) ts)"
proof (cases ts)
  case Nil
  then show ?thesis by simp
next
  case (Cons t ts')
  then have "Split c (Join c ts) = ts"
    using assms by (intro Split_Join) auto
  then show ?thesis by (simp add: append_childrens_eq)
qed

text \<open>
  C2. A listing made of tokens joined by NUL, of which \<open>N\<close> are non-empty and \<open>M\<close> are
  empty, is discovered as exactly \<open>N\<close> interface paths, in listing order, each being
  \<open>controlKey\<close>, a slash and the token. When the listing fails the result is empty.
\<close>

theorem GetChildrens_discovery:
  "(Directory (Client f) controlKey = Inl e \<longrightarrow> snd (GetChildrens f key) = []) \<and>
   (Directory (Client f) controlKey = Inr (Join NUL tokens) \<and>
    (\<forall>t \<in> set tokens. NUL \<notin> set t) \<and>
    length (filter (\<lambda>t. t \<noteq> []) tokens) = N \<and>
    length (filter (\<lambda>t. t = []) tokens) = M \<longrightarrow>
      snd (GetChildrens f key) =
        map (\<lambda>t. controlKey @ ''/'' @ t) (filter (\<lambda>t. t \<noteq> []) tokens) \<and>
      length (snd (GetChildrens f key)) = N)"
  by (auto simp: GetChildrens_def children_of_listing)

theorem GetChildrens_discovery_witness:
  "snd (GetChildrens broken_feature controlKey) = [] \<and>
   snd (GetChildrens demo_feature controlKey) =
     [''xenserver/device/vif/0'', ''xenserver/device/vif/1'', ''xenserver/device/vif/2''] \<and>
   length (snd (GetChildrens demo_feature controlKey)) = 3"
  using GetChildrens_discovery [of broken_feature "Error ''EIO''" controlKey "[]" 0 0]
    GetChildrens_discovery [of demo_feature "Error ''EIO''" controlKey "[''0'', [], ''1'', ''2'']" 3 1]
  by (simp add: broken_feature_def broken_client_def demo_feature_def demo_client_def
      controlKey_def NUL_def)

subsection \<open>Effects by kind\<close>

lemma ConfigStaticIP_no_Write:
  "filter is_Call_Write (fst (ConfigStaticIP net f vifKey mac isIPv6 osType)) = []"
  by (simp add: ConfigStaticIP_def Let_def split: sum.splits option.splits prod.splits)

lemma ConfigStaticIP_no_call:
  "filter (call_on k) (fst (ConfigStaticIP net f vifKey mac isIPv6 osType)) = []"
  by (simp add: ConfigStaticIP_def Let_def split: sum.splits option.splits prod.splits)

lemma ConfigStaticIP_no_call_for:
  "filter (call_for k v6) (fst (ConfigStaticIP net f vifKey mac isIPv6 osType)) = []"
  by (simp add: ConfigStaticIP_def Let_def split: sum.splits option.splits prod.splits)

lemma check_key_no_Write:
  "filter is_Call_Write (check_key net f osType subkey) = []"
  by (simp add: check_key_def Let_def ConfigStaticIP_no_Write split: sum.splits)

lemma check_keys_no_Write:
  "filter is_Call_Write (check_keys net f osType childrens) = []"
  by (induction childrens) (simp_all add: check_key_no_Write)

lemma GetChildrens_no_Write:
  "filter is_Call_Write (fst (GetChildrens f key)) = []"
  by (simp add: GetChildrens_def split: sum.splits)

lemma scan_no_Write: "filter is_Call_Write (scan net f osType) = []"
  by (simp add: scan_def case_prod_beta check_keys_no_Write GetChildrens_no_Write)

lemma iteration_Writes:
  "filter is_Call_Write (iteration net f osType) =
     [Call_Write advertiseKey (if Enabled f then ''1'' else ''0'')]"
  by (simp add: iteration_def Enable_def scan_no_Write)

lemma loop_Writes:
  "filter is_Call_Write (loop net f osType cs) =
     replicate (length cs) (Call_Write advertiseKey (if Enabled f then ''1'' else ''0''))"
  by (induction cs) (simp_all add: iteration_Writes)

subsection \<open>The loop\<close>

text \<open>
  C8. Every pass through the loop writes the advertise key exactly once, as its first
  effect, with the value \<open>1\<close> when \<open>Enabled\<close> is set and \<open>0\<close> otherwise; this holds for
  every store client and whether or not a watch event fired. Over any number of passes
  the writes are that same write, once per pass.
\<close>

theorem advertise_on_every_iteration:
  "take 1 (iteration net f osType) =
     [Call_Write advertiseKey (if Enabled f then ''1'' else ''0'')] \<and>
   filter is_Call_Write (iteration net f osType) =
     [Call_Write advertiseKey (if Enabled f then ''1'' else ''0'')] \<and>
   filter is_Call_Write (loop net f osType cs) =
     replicate (length cs) (Call_Write advertiseKey (if Enabled f then ''1'' else ''0''))"
  by (simp add: iteration_Writes loop_Writes) (simp add: iteration_def Enable_def)

text \<open>
  The order of a pass: the write, the wait for an event, the scan if there was one, and
  last the wait on the ticker.
\<close>

lemma iteration_order:
  "iteration net f osType =
     Call_Write advertiseKey (if Enabled f then ''1'' else ''0'') #
     Call_WatchEvent controlKey #
     (if snd (WatchEvent (Client f) controlKey) then scan net f osType else []) @
     [Wait_ticker]"
  by (simp add: iteration_def Enable_def)

subsection \<open>The loop in time\<close>

lemma receive_tick_facts:
  "after \<le> fst (receive_tick after fire)"
  "fire \<le> fst (receive_tick after fire)"
  "fire + period \<le> snd (receive_tick after fire)"
  "fst (receive_tick after fire) < snd (receive_tick after fire)"
proof -
  have p: "0 < period" by (simp add: period_def)
  have "x < period * (x div period + 1)" for x
    using p by (metis Suc_eq_plus1 dividend_less_times_div mult.commute mult_Suc_right add.commute)
  then have "fire \<le> after \<Longrightarrow> after < fire + period * ((after - fire) div period + 1)"
    by (metis add.commute less_diff_conv2)
  then show "fst (receive_tick after fire) < snd (receive_tick after fire)"
    using p by (simp add: receive_tick_def)
  show "after \<le> fst (receive_tick after fire)" "fire \<le> fst (receive_tick after fire)"
    "fire + period \<le> snd (receive_tick after fire)"
    by (simp_all add: receive_tick_def)
qed

lemma timed_loop_from_now:
  "t \<in> set (timed_loop now fire events) \<Longrightarrow> now \<le> t"
proof (induction events arbitrary: now fire t)
  case Nil
  then show ?case by simp
next
  case (Cons ev events)
  obtain arrival ok work where ev: "ev = (arrival, ok, work)" by (cases ev)
  show ?case
  proof (cases ok)
    case True
    with Cons.prems ev have "t = max now arrival \<or>
        t \<in> set (timed_loop (fst (receive_tick (max now arrival + work) fire))
             (snd (receive_tick (max now arrival + work) fire)) events)"
      by simp
    then show ?thesis
    proof
      assume "t = max now arrival"
      then show ?thesis by simp
    next
      assume "t \<in> set (timed_loop (fst (receive_tick (max now arrival + work) fire))
             (snd (receive_tick (max now arrival + work) fire)) events)"
      then have "fst (receive_tick (max now arrival + work) fire) \<le> t"
        by (rule Cons.IH)
      moreover have "max now arrival + work \<le> fst (receive_tick (max now arrival + work) fire)"
        by (rule receive_tick_facts)
      ultimately show ?thesis by simp
    qed
  next
    case False
    with Cons.prems ev have "t \<in> set (timed_loop (fst (receive_tick (max now arrival) fire))
             (snd (receive_tick (max now arrival) fire)) events)"
      by simp
    then have "fst (receive_tick (max now arrival) fire) \<le> t"
      by (rule Cons.IH)
    moreover have "max now arrival \<le> fst (receive_tick (max now arrival) fire)"
      by (rule receive_tick_facts)
    ultimately show ?thesis by simp
  qed
qed


lemma timed_loop_Cons:
  "timed_loop now fire ((arrival, ok, work) # events) =
     (if ok then [max now arrival] else []) @
     timed_loop (fst (receive_tick (max now arrival + (if ok then work else 0)) fire))
       (snd (receive_tick (max now arrival + (if ok then work else 0)) fire)) events"
  by simp

lemma timed_loop_after_one:
  assumes "t \<in> set (drop 1 (timed_loop now fire events))"
  shows "fire \<le> t"
proof (cases events)
  case Nil
  with assms show ?thesis by simp
next
  case (Cons ev evs)
  obtain arrival ok work where ev: "ev = (arrival, ok, work)" by (cases ev)
  let ?a = "max now arrival + (if ok then work else 0)"
  let ?rest = "timed_loop (fst (receive_tick ?a fire)) (snd (receive_tick ?a fire)) evs"
  have "t \<in> set ?rest"
  proof (cases ok)
    case True
    with assms Cons ev show ?thesis by simp
  next
    case False
    with assms Cons ev have "t \<in> set (drop 1 ?rest)" by simp
    then show ?thesis by (rule in_set_dropD)
  qed
  then have "fst (receive_tick ?a fire) \<le> t" by (rule timed_loop_from_now)
  moreover have "fire \<le> fst (receive_tick ?a fire)" by (rule receive_tick_facts)
  ultimately show ?thesis by simp
qed

lemma timed_loop_after_two:
  assumes "t \<in> set (drop 2 (timed_loop now fire events))"
  shows "fire + period \<le> t"
proof (cases events)
  case Nil
  with assms show ?thesis by simp
next
  case (Cons ev evs)
  obtain arrival ok work where ev: "ev = (arrival, ok, work)" by (cases ev)
  let ?a = "max now arrival + (if ok then work else 0)"
  let ?rest = "timed_loop (fst (receive_tick ?a fire)) (snd (receive_tick ?a fire)) evs"
  have "t \<in> set (drop 1 ?rest)"
  proof (cases ok)
    case True
    with assms Cons ev show ?thesis by simp
  next
    case False
    with assms Cons ev have "t \<in> set (drop 2 ?rest)" by simp
    then show ?thesis
      using set_drop_subset_set_drop [of 1 2 ?rest] by auto
  qed
  then have "snd (receive_tick ?a fire) \<le> t" by (rule timed_loop_after_one)
  moreover have "fire + period \<le> snd (receive_tick ?a fire)" by (rule receive_tick_facts)
  ultimately show ?thesis by simp
qed

lemma timed_loop_third_next:
  "now < fire \<Longrightarrow> i + 3 < length (timed_loop now fire events) \<Longrightarrow>
     timed_loop now fire events ! i + period < timed_loop now fire events ! (i + 3)"
proof (induction events arbitrary: now fire i)
  case Nil
  then show ?case by simp
next
  case (Cons ev evs)
  obtain arrival ok work where ev: "ev = (arrival, ok, work)" by (cases ev)
  let ?a = "max now arrival + (if ok then work else 0)"
  let ?now = "fst (receive_tick ?a fire)"
  let ?fire = "snd (receive_tick ?a fire)"
  let ?rest = "timed_loop ?now ?fire evs"
  have inv: "?now < ?fire" by (rule receive_tick_facts)
  have unfold: "timed_loop now fire (ev # evs) = (if ok then [max now arrival] else []) @ ?rest"
    unfolding ev by (rule timed_loop_Cons)
  show ?case
  proof (cases ok)
    case False
    with unfold have eq: "timed_loop now fire (ev # evs) = ?rest" by simp
    from Cons.prems(2) show ?thesis
      unfolding eq by (rule Cons.IH [OF inv])
  next
    case True
    with unfold have eq: "timed_loop now fire (ev # evs) = max now arrival # ?rest" by simp
    show ?thesis
    proof (cases i)
      case (Suc j)
      from Cons.prems(2) have "j + 3 < length ?rest"
        unfolding eq Suc by simp
      then have "?rest ! j + period < ?rest ! (j + 3)"
        by (rule Cons.IH [OF inv])
      then show ?thesis using True unfolding eq Suc by (simp add: add.commute)
    next
      case 0
      from Cons.prems(2) have len: "2 < length ?rest"
        unfolding eq 0 by simp
      then have "?rest ! 2 \<in> set (drop 2 ?rest)"
        by (metis Cons_nth_drop_Suc list.set_intros(1))
      then have "?fire + period \<le> ?rest ! 2" by (rule timed_loop_after_two)
      moreover have "?a \<le> ?now" by (rule receive_tick_facts)
      moreover have "max now arrival \<le> ?a" by simp
      ultimately have "max now arrival + period < ?rest ! 2"
        using inv by linarith
      then show ?thesis using True unfolding eq 0 by (simp add: numeral_3_eq_3 numeral_2_eq_2)
    qed
  qed
qed

lemma timed_loop_sorted: "sorted (timed_loop now fire events)"
proof (induction events arbitrary: now fire)
  case Nil
  show ?case by simp
next
  case (Cons ev evs)
  obtain arrival ok work where ev: "ev = (arrival, ok, work)" by (cases ev)
  let ?a = "max now arrival + (if ok then work else 0)"
  let ?rest = "timed_loop (fst (receive_tick ?a fire)) (snd (receive_tick ?a fire)) evs"
  have unfold: "timed_loop now fire (ev # evs) = (if ok then [max now arrival] else []) @ ?rest"
    unfolding ev by (rule timed_loop_Cons)
  have rest: "sorted ?rest" by (rule Cons.IH)
  have first: "max now arrival \<le> t" if "t \<in> set ?rest" for t
  proof -
    from that have "fst (receive_tick ?a fire) \<le> t" by (rule timed_loop_from_now)
    moreover have "?a \<le> fst (receive_tick ?a fire)" by (rule receive_tick_facts)
    moreover have "max now arrival \<le> ?a" by simp
    ultimately show ?thesis by linarith
  qed
  show ?case
  proof (cases ok)
    case False
    then have "timed_loop now fire (ev # evs) = ?rest"
      by (simp only: unfold if_False append_Nil)
    with rest show ?thesis by (simp only:)
  next
    case True
    then have "timed_loop now fire (ev # evs) = max now arrival # ?rest"
      by (simp only: unfold if_True append_Cons append_Nil)
    moreover have "sorted (max now arrival # ?rest)"
      using rest first by (simp only: sorted_simps) blast
    ultimately show ?thesis by (simp only:)
  qed
qed

lemma ConfigStaticIP_no_Wait:
  "Wait_ticker \<notin> set (fst (ConfigStaticIP net f vifKey mac isIPv6 osType))"
  by (simp add: ConfigStaticIP_def Let_def split: sum.splits option.splits prod.splits)

lemma check_key_no_Wait: "Wait_ticker \<notin> set (check_key net f osType subkey)"
  by (simp add: check_key_def Let_def ConfigStaticIP_no_Wait split: sum.splits)

lemma check_keys_no_Wait: "Wait_ticker \<notin> set (check_keys net f osType childrens)"
  by (induction childrens) (simp_all add: check_key_no_Wait)

lemma scan_no_Wait: "Wait_ticker \<notin> set (scan net f osType)"
  by (simp add: scan_def case_prod_beta check_keys_no_Wait GetChildrens_def split: sum.splits)

lemma iteration_Waits:
  "filter (\<lambda>e. e = Wait_ticker) (iteration net f osType) = [Wait_ticker]"
proof -
  have "filter (\<lambda>e. e = Wait_ticker) (scan net f osType) = []"
    using scan_no_Wait [of net f osType] by (simp only: filter_empty_conv) blast
  then show ?thesis by (simp add: iteration_def Enable_def)
qed

text \<open>
  C3, as amended. Every pass through the loop ends with one receive from the 4-second
  ticker, after the scan if there was one and before the next write and wait for an
  event. In time, the scans of a run start in order, and any scan and the third scan
  after it start more than 4 seconds apart: no window of 4 seconds holds more than
  three scan starts, whatever the notifications and however long the scans take.
\<close>

theorem ticker_paces_the_loop:
  "last (iteration net f osType) = Wait_ticker \<and>
   filter (\<lambda>e. e = Wait_ticker) (iteration net f osType) = [Wait_ticker] \<and>
   sorted (scan_times events) \<and>
   (i + 3 < length (scan_times events) \<longrightarrow>
      scan_times events ! i + period < scan_times events ! (i + 3))"
proof -
  have "(0::nat) < period" by (simp add: period_def)
  then have "i + 3 < length (scan_times events) \<Longrightarrow>
      scan_times events ! i + period < scan_times events ! (i + 3)"
    unfolding scan_times_def by (rule timed_loop_third_next)
  moreover have "sorted (scan_times events)"
    unfolding scan_times_def by (rule timed_loop_sorted)
  moreover have "last (iteration net f osType) = Wait_ticker"
    by (simp add: iteration_def)
  ultimately show ?thesis using iteration_Waits by blast
qed

text \<open>The burst: five notifications from 5.0 s to 5.8 s.\<close>

lemma scan_times_burst: "scan_times burst = [5000, 5200, 8000, 12000, 16000]"
  by (simp add: scan_times_def burst_def receive_tick_def period_def)

theorem ticker_paces_the_loop_witness:
  "0 + 3 < length (scan_times burst) \<and>
   scan_times burst ! 0 + period < scan_times burst ! (0 + 3)"
proof -
  have h: "0 + 3 < length (scan_times burst)"
    by (simp add: scan_times_burst)
  with ticker_paces_the_loop [of demo_net demo_feature OTHER burst 0] show ?thesis
    by blast
qed

text \<open>
  C3, as stated, fails: the tick that fired at 4 s, while the loop was blocked waiting for
  the first notification, is still in the channel after the first scan, so the receive
  returns at once and the second notification is scanned 0.2 s after the first. Three
  scans start within 3 seconds.
\<close>

theorem burst_scanned_twice_counterexample:
  "scan_times burst = [5000, 5200, 8000, 12000, 16000] \<and>
   \<not> one_scan_per_window period (scan_times burst) \<and>
   \<not> one_scan_per_window 1000 (scan_times burst)"
  by (simp add: scan_times_burst period_def)

subsection \<open>ConfigStaticIP\<close>

text \<open>
  C9. \<open>ConfigStaticIP\<close> does not depend on its \<open>mac\<close> argument: two calls that differ only
  in \<open>mac\<close> perform the same reads, print the same lines and return the same value.
\<close>

theorem ConfigStaticIP_ignores_mac:
  "ConfigStaticIP net f vifKey mac isIPv6 osType = ConfigStaticIP net f vifKey mac' isIPv6 osType"
  by (simp add: ConfigStaticIP_def)

text \<open>
  C10. \<open>ConfigStaticIP\<close> returns nil for every input and every store, also when reads
  or parses fail.
\<close>

theorem ConfigStaticIP_returns_nil:
  "snd (ConfigStaticIP net f vifKey mac isIPv6 osType) = None"
  by (simp add: ConfigStaticIP_def Let_def)

subsection \<open>Run\<close>

text \<open>
  C7. \<open>Run\<close> returns an error exactly when the registration of the watch on
  \<open>controlKey\<close> fails, and then it is that error and the goroutine is not started.
  Otherwise \<open>Run\<close> registers the watch, prints one line, starts the goroutine and returns
  nil: nothing of the loop (no write, no wait for an event, no read) precedes its return.
\<close>

theorem Run_fails_only_on_Watch:
  "(snd (Run f) \<noteq> None \<longleftrightarrow> Watch (Client f) controlKey token \<noteq> None) \<and>
   (snd (Run f) = Watch (Client f) controlKey token) \<and>
   (snd (Run f) \<noteq> None \<longrightarrow> Go_loop \<notin> set (fst (Run f))) \<and>
   (snd (Run f) = None \<longrightarrow>
      fst (Run f) = [Call_Watch controlKey token, Printf (Start_watch controlKey), Go_loop])"
  by (auto simp: Run_def split: option.splits)

theorem Run_fails_only_on_Watch_witness:
  "snd (Run broken_feature) = Some (Error ''EIO'') \<and> Go_loop \<notin> set (fst (Run broken_feature)) \<and>
   snd (Run demo_feature) = None \<and>
   fst (Run demo_feature) =
     [Call_Watch controlKey token, Printf (Start_watch controlKey), Go_loop]"
  using Run_fails_only_on_Watch [of broken_feature] Run_fails_only_on_Watch [of demo_feature]
  by (simp add: broken_feature_def broken_client_def demo_feature_def demo_client_def)

subsection \<open>Checking the interfaces\<close>

lemma check_key_calls_for:
  "filter (call_for k v6) (check_key net f osType subkey) =
     (case Read (Client f) (subkey @ macSubKey) of
        Inl e \<Rightarrow> []
      | Inr mac \<Rightarrow>
          (if subkey = k \<and>
              Read (Client f) (subkey @ (if v6 then ipv6enabledSubKey else ipenabledSubKey)) = Inr ''1''
           then [Call_ConfigStaticIP subkey mac v6 osType] else []))"
  by (auto simp: check_key_def Let_def ConfigStaticIP_no_call_for split: sum.splits)

lemma check_key_calls_on:
  "filter (call_on k) (check_key net f osType subkey) =
     (case Read (Client f) (subkey @ macSubKey) of
        Inl e \<Rightarrow> []
      | Inr mac \<Rightarrow>
          (if subkey = k then
             (if Read (Client f) (subkey @ ipenabledSubKey) = Inr ''1''
              then [Call_ConfigStaticIP subkey mac False osType] else []) @
             (if Read (Client f) (subkey @ ipv6enabledSubKey) = Inr ''1''
              then [Call_ConfigStaticIP subkey mac True osType] else [])
           else []))"
  by (auto simp: check_key_def Let_def ConfigStaticIP_no_call split: sum.splits)

lemma check_key_other_for:
  "subkey \<noteq> k \<Longrightarrow> filter (call_for k v6) (check_key net f osType subkey) = []"
  by (simp add: check_key_calls_for split: sum.splits)

lemma check_key_other_on:
  "subkey \<noteq> k \<Longrightarrow> filter (call_on k) (check_key net f osType subkey) = []"
  by (simp add: check_key_calls_on split: sum.splits)

lemma check_keys_calls_for:
  "set (filter (call_for k v6) (check_keys net f osType childrens)) =
     (if k \<in> set childrens then set (filter (call_for k v6) (check_key net f osType k)) else {})"
proof (induction childrens)
  case Nil
  show ?case by simp
next
  case (Cons c cs)
  show ?case
  proof (cases "c = k")
    case True
    with Cons show ?thesis by auto
  next
    case False
    with Cons show ?thesis by (simp add: check_key_other_for)
  qed
qed

lemma check_keys_calls_on:
  "filter (call_on k) (check_keys net f osType childrens) =
     concat (replicate (count_list childrens k) (filter (call_on k) (check_key net f osType k)))"
proof (induction childrens)
  case Nil
  show ?case by simp
next
  case (Cons c cs)
  show ?case
  proof (cases "c = k")
    case True
    with Cons show ?thesis by simp
  next
    case False
    with Cons show ?thesis by (simp add: check_key_other_on)
  qed
qed

lemma GetChildrens_no_call_for:
  "filter (call_for k v6) (fst (GetChildrens f key)) = []"
  by (simp add: GetChildrens_def split: sum.splits)

lemma GetChildrens_no_call_on:
  "filter (call_on k) (fst (GetChildrens f key)) = []"
  by (simp add: GetChildrens_def split: sum.splits)

lemma scan_calls_for:
  "set (filter (call_for k v6) (scan net f osType)) =
     (if k \<in> set (snd (GetChildrens f controlKey))
      then set (filter (call_for k v6) (check_key net f osType k)) else {})"
proof -
  have "filter (call_for k v6) (scan net f osType) =
      filter (call_for k v6) (check_keys net f osType (snd (GetChildrens f controlKey)))"
    by (simp add: scan_def case_prod_beta GetChildrens_no_call_for)
  then show ?thesis by (simp only: check_keys_calls_for)
qed

lemma scan_calls_on:
  "filter (call_on k) (scan net f osType) =
     concat (replicate (count_list (snd (GetChildrens f controlKey)) k)
       (filter (call_on k) (check_key net f osType k)))"
  by (simp add: scan_def case_prod_beta GetChildrens_no_call_on check_keys_calls_on)

text \<open>
  C1. In a scan, for a discovered interface whose MAC is read and for either address
  family, \<open>ConfigStaticIP\<close> is called for that interface and family exactly when the
  read of the family's enabled key succeeds with the value \<open>1\<close>; the call then carries
  the interface, the MAC, the family and the operating system. For any other value, and
  for a failed read, the scan holds no call for that interface and family at all.
\<close>

theorem Apply_iff_enabled:
  assumes "subkey \<in> set (snd (GetChildrens f controlKey))"
    and "Read (Client f) (subkey @ macSubKey) = Inr mac"
  shows "(Call_ConfigStaticIP subkey mac isIPv6 osType \<in> set (scan net f osType) \<longleftrightarrow>
            Read (Client f) (subkey @ (if isIPv6 then ipv6enabledSubKey else ipenabledSubKey))
              = Inr ''1'') \<and>
         (filter (call_for subkey isIPv6) (scan net f osType) \<noteq> [] \<longleftrightarrow>
            Read (Client f) (subkey @ (if isIPv6 then ipv6enabledSubKey else ipenabledSubKey))
              = Inr ''1'')"
proof -
  let ?en = "Read (Client f) (subkey @ (if isIPv6 then ipv6enabledSubKey else ipenabledSubKey))
              = Inr ''1''"
  let ?c = "Call_ConfigStaticIP subkey mac isIPv6 osType"
  have "filter (call_for subkey isIPv6) (check_key net f osType subkey) =
      (if ?en then [?c] else [])"
    using assms(2) by (simp add: check_key_calls_for)
  then have calls: "set (filter (call_for subkey isIPv6) (scan net f osType)) =
      (if ?en then {?c} else {})"
    using assms(1) by (simp only: scan_calls_for if_True) simp
  have "?c \<in> set (scan net f osType) \<longleftrightarrow>
      ?c \<in> set (filter (call_for subkey isIPv6) (scan net f osType))"
    by simp
  then have first: "?c \<in> set (scan net f osType) \<longleftrightarrow> ?en"
    unfolding calls by simp
  have "filter (call_for subkey isIPv6) (scan net f osType) \<noteq> [] \<longleftrightarrow>
      set (filter (call_for subkey isIPv6) (scan net f osType)) \<noteq> {}"
    by (simp only: set_empty)
  then have second: "filter (call_for subkey isIPv6) (scan net f osType) \<noteq> [] \<longleftrightarrow> ?en"
    unfolding calls by simp
  from first second show ?thesis by blast
qed


theorem Apply_iff_enabled_witness:
  "''xenserver/device/vif/0'' \<in> set (snd (GetChildrens demo_feature controlKey)) \<and>
   Read (Client demo_feature) (''xenserver/device/vif/0'' @ macSubKey) = Inr ''00:16:3e:00:00:01'' \<and>
   Call_ConfigStaticIP ''xenserver/device/vif/0'' ''00:16:3e:00:00:01'' True CENTOS
     \<in> set (scan demo_net demo_feature CENTOS) \<and>
   Call_ConfigStaticIP ''xenserver/device/vif/0'' ''00:16:3e:00:00:01'' False CENTOS
     \<notin> set (scan demo_net demo_feature CENTOS)"
proof -
  have h1: "''xenserver/device/vif/0'' \<in> set (snd (GetChildrens demo_feature controlKey))"
    by (simp add: GetChildrens_def demo_feature_def demo_client_def controlKey_def NUL_def)
  have h2: "Read (Client demo_feature) (''xenserver/device/vif/0'' @ macSubKey)
      = Inr ''00:16:3e:00:00:01''"
    by (simp add: demo_feature_def demo_client_def read_from_def demo_entries_def macSubKey_def)
  show ?thesis
    using h1 h2 Apply_iff_enabled [OF h1 h2, of True CENTOS demo_net]
      Apply_iff_enabled [OF h1 h2, of False CENTOS demo_net]
    by (simp add: demo_feature_def demo_client_def read_from_def demo_entries_def
        ipenabledSubKey_def ipv6enabledSubKey_def)
qed

text \<open>
  C6, as amended. When the MAC of an interface is read, the calls of \<open>ConfigStaticIP\<close>
  made each time the interface is checked are one for IPv4 if its enabled key reads \<open>1\<close>,
  followed by one for IPv6 if its enabled key reads \<open>1\<close>: neither family depends on the
  other. With IPv4 not enabled and IPv6 enabled there is exactly one call per check, for
  IPv6; it reads the keys \<open>address6\<close> and \<open>gateway6\<close> and the keys \<open>address\<close> and
  \<open>gateway\<close> are not read. A scan checks the interface once for each time the listing
  names it, so it holds that call as many times: exactly once when the listing names the
  interface once.
\<close>

theorem families_independent:
  assumes "Read (Client f) (subkey @ macSubKey) = Inr mac"
  shows "filter (call_on subkey) (check_key net f osType subkey) =
           (if Read (Client f) (subkey @ ipenabledSubKey) = Inr ''1''
            then [Call_ConfigStaticIP subkey mac False osType] else []) @
           (if Read (Client f) (subkey @ ipv6enabledSubKey) = Inr ''1''
            then [Call_ConfigStaticIP subkey mac True osType] else []) \<and>
         (Read (Client f) (subkey @ ipenabledSubKey) \<noteq> Inr ''1'' \<and>
          Read (Client f) (subkey @ ipv6enabledSubKey) = Inr ''1'' \<longrightarrow>
            filter (call_on subkey) (check_key net f osType subkey) =
              [Call_ConfigStaticIP subkey mac True osType] \<and>
            Call_Read (subkey @ address6SubKey) \<in> set (check_key net f osType subkey) \<and>
            Call_Read (subkey @ gateway6SubKey) \<in> set (check_key net f osType subkey) \<and>
            Call_Read (subkey @ addressSubKey) \<notin> set (check_key net f osType subkey) \<and>
            Call_Read (subkey @ gatewaySubKey) \<notin> set (check_key net f osType subkey) \<and>
            filter (call_on subkey) (scan net f osType) =
              replicate (count_list (snd (GetChildrens f controlKey)) subkey)
                (Call_ConfigStaticIP subkey mac True osType) \<and>
            (count_list (snd (GetChildrens f controlKey)) subkey = 1 \<longrightarrow>
               filter (call_on subkey) (scan net f osType) =
                 [Call_ConfigStaticIP subkey mac True osType]))"
proof -
  let ?v4 = "Read (Client f) (subkey @ ipenabledSubKey) = Inr ''1''"
  let ?v6 = "Read (Client f) (subkey @ ipv6enabledSubKey) = Inr ''1''"
  have general: "filter (call_on subkey) (check_key net f osType subkey) =
           (if ?v4 then [Call_ConfigStaticIP subkey mac False osType] else []) @
           (if ?v6 then [Call_ConfigStaticIP subkey mac True osType] else [])"
    using assms by (simp add: check_key_calls_on)
  have reads: "set (check_key net f osType subkey) =
      {Printf (Start_checking_key subkey), Call_Read (subkey @ macSubKey),
       Call_Read (subkey @ ipenabledSubKey), Call_Read (subkey @ ipv6enabledSubKey),
       Call_ConfigStaticIP subkey mac True osType} \<union>
      set (fst (ConfigStaticIP net f subkey mac True osType))"
    if "\<not> ?v4" "?v6"
    using assms that by (auto simp: check_key_def Let_def split: sum.splits)
  have cfg: "Call_Read (subkey @ address6SubKey) \<in> set (fst (ConfigStaticIP net f subkey mac True osType))
    \<and> Call_Read (subkey @ gateway6SubKey) \<in> set (fst (ConfigStaticIP net f subkey mac True osType))
    \<and> Call_Read (subkey @ addressSubKey) \<notin> set (fst (ConfigStaticIP net f subkey mac True osType))
    \<and> Call_Read (subkey @ gatewaySubKey) \<notin> set (fst (ConfigStaticIP net f subkey mac True osType))"
    by (auto simp: ConfigStaticIP_def Let_def address6SubKey_def gateway6SubKey_def
        addressSubKey_def gatewaySubKey_def split: sum.splits option.splits)
  have keys: "subkey @ addressSubKey \<noteq> subkey @ macSubKey"
    "subkey @ addressSubKey \<noteq> subkey @ ipenabledSubKey"
    "subkey @ addressSubKey \<noteq> subkey @ ipv6enabledSubKey"
    "subkey @ gatewaySubKey \<noteq> subkey @ macSubKey"
    "subkey @ gatewaySubKey \<noteq> subkey @ ipenabledSubKey"
    "subkey @ gatewaySubKey \<noteq> subkey @ ipv6enabledSubKey"
    by (simp_all add: addressSubKey_def gatewaySubKey_def macSubKey_def ipenabledSubKey_def
        ipv6enabledSubKey_def)
  have scan1: "filter (call_on subkey) (scan net f osType) =
      filter (call_on subkey) (check_key net f osType subkey)"
    if "count_list (snd (GetChildrens f controlKey)) subkey = 1"
    using that by (simp add: scan_calls_on)
  have scanN: "filter (call_on subkey) (scan net f osType) =
      replicate (count_list (snd (GetChildrens f controlKey)) subkey)
        (Call_ConfigStaticIP subkey mac True osType)"
    if "\<not> ?v4" "?v6"
  proof -
    have "concat (replicate n [x]) = replicate n x" for n and x :: effect
      by (induction n) simp_all
    then show ?thesis
      using general that by (simp add: scan_calls_on)
  qed
  show ?thesis
    using general reads cfg keys scan1 scanN by auto
qed

theorem families_independent_witness:
  "Read (Client demo_feature) (''xenserver/device/vif/0'' @ macSubKey) = Inr ''00:16:3e:00:00:01'' \<and>
   Read (Client demo_feature) (''xenserver/device/vif/0'' @ ipenabledSubKey) \<noteq> Inr ''1'' \<and>
   Read (Client demo_feature) (''xenserver/device/vif/0'' @ ipv6enabledSubKey) = Inr ''1'' \<and>
   count_list (snd (GetChildrens demo_feature controlKey)) ''xenserver/device/vif/0'' = 1 \<and>
   filter (call_on ''xenserver/device/vif/0'') (scan demo_net demo_feature OTHER) =
     [Call_ConfigStaticIP ''xenserver/device/vif/0'' ''00:16:3e:00:00:01'' True OTHER]"
proof -
  have h: "Read (Client demo_feature) (''xenserver/device/vif/0'' @ macSubKey)
      = Inr ''00:16:3e:00:00:01''"
    by (simp add: demo_feature_def demo_client_def read_from_def demo_entries_def macSubKey_def)
  have c: "count_list (snd (GetChildrens demo_feature controlKey)) ''xenserver/device/vif/0'' = 1"
    by (simp add: GetChildrens_def demo_feature_def demo_client_def controlKey_def NUL_def)
  show ?thesis
    using h c families_independent [OF h, of demo_net OTHER]
    by (simp add: demo_feature_def demo_client_def read_from_def demo_entries_def
        ipenabledSubKey_def ipv6enabledSubKey_def)
qed

text \<open>
  C6, as stated, fails: a listing is not deduplicated, so an interface that the listing
  names twice is checked twice in one scan and gets two calls for IPv6.
\<close>

theorem listed_twice_counterexample:
  "Read (Client dup_feature) (''xenserver/device/vif/0'' @ macSubKey) = Inr ''00:16:3e:00:00:01'' \<and>
   Read (Client dup_feature) (''xenserver/device/vif/0'' @ ipenabledSubKey) \<noteq> Inr ''1'' \<and>
   Read (Client dup_feature) (''xenserver/device/vif/0'' @ ipv6enabledSubKey) = Inr ''1'' \<and>
   filter (call_on ''xenserver/device/vif/0'') (scan demo_net dup_feature OTHER) =
     [Call_ConfigStaticIP ''xenserver/device/vif/0'' ''00:16:3e:00:00:01'' True OTHER,
      Call_ConfigStaticIP ''xenserver/device/vif/0'' ''00:16:3e:00:00:01'' True OTHER]"
proof -
  have c: "count_list (snd (GetChildrens dup_feature controlKey)) ''xenserver/device/vif/0'' = 2"
    by (simp add: GetChildrens_def dup_feature_def dup_client_def controlKey_def NUL_def)
  have k: "filter (call_on ''xenserver/device/vif/0'')
        (check_key demo_net dup_feature OTHER ''xenserver/device/vif/0'') =
      [Call_ConfigStaticIP ''xenserver/device/vif/0'' ''00:16:3e:00:00:01'' True OTHER]"
    by (simp add: check_key_calls_on dup_feature_def dup_client_def read_from_def
        demo_entries_def macSubKey_def ipenabledSubKey_def ipv6enabledSubKey_def)
  have "filter (call_on ''xenserver/device/vif/0'') (scan demo_net dup_feature OTHER) =
     [Call_ConfigStaticIP ''xenserver/device/vif/0'' ''00:16:3e:00:00:01'' True OTHER,
      Call_ConfigStaticIP ''xenserver/device/vif/0'' ''00:16:3e:00:00:01'' True OTHER]"
    by (simp only: scan_calls_on c k) (simp add: numeral_2_eq_2)
  then show ?thesis
    by (simp add: dup_feature_def dup_client_def read_from_def
        demo_entries_def macSubKey_def ipenabledSubKey_def ipv6enabledSubKey_def)
qed

text \<open>
  C5. In one call of \<open>ConfigStaticIP\<close> the address and the gateway are handled
  independently. Both keys are always read. What is reported for the address depends on
  the address alone: it is reported as set when it is read and parses as CIDR; a failed
  parse or a failed read prints a diagnostic and reports nothing as set. The same holds
  for the gateway with its read and its parse as an IP literal. No outcome of one field
  changes the other, and the call always returns nil.
\<close>

theorem ConfigStaticIP_fields_independent:
  "Call_Read (vifKey @ (if isIPv6 then address6SubKey else addressSubKey))
     \<in> set (fst (ConfigStaticIP net f vifKey mac isIPv6 osType)) \<and>
   Call_Read (vifKey @ (if isIPv6 then gateway6SubKey else gatewaySubKey))
     \<in> set (fst (ConfigStaticIP net f vifKey mac isIPv6 osType)) \<and>
   (Read (Client f) (vifKey @ (if isIPv6 then address6SubKey else addressSubKey)) = Inr address \<and>
    ParseCIDR net address = Inr (ip, ipNet) \<longrightarrow>
      filter is_Set_IP (fst (ConfigStaticIP net f vifKey mac isIPv6 osType)) =
        [Printf (if osType = CENTOS then Set_IP_on_Centos ip ipNet
                 else Set_IP_on_Other_OS ip ipNet)]) \<and>
   (Read (Client f) (vifKey @ (if isIPv6 then address6SubKey else addressSubKey)) = Inr address \<and>
    ParseCIDR net address = Inl msg \<longrightarrow>
      filter is_Set_IP (fst (ConfigStaticIP net f vifKey mac isIPv6 osType)) = [] \<and>
      Printf (ParseCIDR_failed address msg)
        \<in> set (fst (ConfigStaticIP net f vifKey mac isIPv6 osType))) \<and>
   (Read (Client f) (vifKey @ (if isIPv6 then address6SubKey else addressSubKey)) = Inl err \<longrightarrow>
      filter is_Set_IP (fst (ConfigStaticIP net f vifKey mac isIPv6 osType)) = [] \<and>
      Printf (Set_IP_failed (Error_msg err))
        \<in> set (fst (ConfigStaticIP net f vifKey mac isIPv6 osType))) \<and>
   (Read (Client f) (vifKey @ (if isIPv6 then gateway6SubKey else gatewaySubKey)) = Inr gateway \<and>
    ParseIP net gateway = Some gatewayAddress \<longrightarrow>
      filter is_Set_gateway (fst (ConfigStaticIP net f vifKey mac isIPv6 osType)) =
        [Printf (if osType = CENTOS then Set_gateway_on_Centos gatewayAddress
                 else Set_gateway_on_other_OS gatewayAddress)]) \<and>
   (Read (Client f) (vifKey @ (if isIPv6 then gateway6SubKey else gatewaySubKey)) = Inr gateway \<and>
    ParseIP net gateway = None \<longrightarrow>
      filter is_Set_gateway (fst (ConfigStaticIP net f vifKey mac isIPv6 osType)) = [] \<and>
      Printf (Invalid_gateway gateway)
        \<in> set (fst (ConfigStaticIP net f vifKey mac isIPv6 osType))) \<and>
   (Read (Client f) (vifKey @ (if isIPv6 then gateway6SubKey else gatewaySubKey)) = Inl err' \<longrightarrow>
      filter is_Set_gateway (fst (ConfigStaticIP net f vifKey mac isIPv6 osType)) = [] \<and>
      Printf (Set_gateway_failed (Error_msg err'))
        \<in> set (fst (ConfigStaticIP net f vifKey mac isIPv6 osType))) \<and>
   snd (ConfigStaticIP net f vifKey mac isIPv6 osType) = None"
  by (auto simp: ConfigStaticIP_def Let_def split: sum.splits option.splits)


theorem ConfigStaticIP_fields_independent_witness:
  "Read (Client demo_feature) (''xenserver/device/vif/1'' @ (if False then address6SubKey else addressSubKey))
     = Inr ''not-an-ip'' \<and>
   ParseCIDR demo_net ''not-an-ip'' = Inl ''invalid CIDR address: not-an-ip'' \<and>
   Read (Client demo_feature) (''xenserver/device/vif/1'' @ (if False then gateway6SubKey else gatewaySubKey))
     = Inr ''192.168.0.1'' \<and>
   ParseIP demo_net ''192.168.0.1'' = Some ''192.168.0.1'' \<and>
   filter is_Set_IP (fst (ConfigStaticIP demo_net demo_feature ''xenserver/device/vif/1'' [] False OTHER))
     = [] \<and>
   filter is_Set_gateway (fst (ConfigStaticIP demo_net demo_feature ''xenserver/device/vif/1'' [] False OTHER))
     = [Printf (Set_gateway_on_other_OS ''192.168.0.1'')] \<and>
   Read (Client demo_feature) (''xenserver/device/vif/0'' @ (if True then address6SubKey else addressSubKey))
     = Inr ''fd00::2/64'' \<and>
   ParseCIDR demo_net ''fd00::2/64'' = Inr (''fd00::2'', ''fd00::/64'') \<and>
   Read (Client demo_feature) (''xenserver/device/vif/0'' @ (if True then gateway6SubKey else gatewaySubKey))
     = Inl (Error ''ENOENT'') \<and>
   filter is_Set_IP (fst (ConfigStaticIP demo_net demo_feature ''xenserver/device/vif/0'' [] True CENTOS))
     = [Printf (Set_IP_on_Centos ''fd00::2'' ''fd00::/64'')] \<and>
   filter is_Set_gateway (fst (ConfigStaticIP demo_net demo_feature ''xenserver/device/vif/0'' [] True CENTOS))
     = [] \<and>
   Read (Client demo_feature) (''xenserver/device/vif/1'' @ (if True then address6SubKey else addressSubKey))
     = Inl (Error ''ENOENT'') \<and>
   Read (Client demo_feature) (''xenserver/device/vif/1'' @ (if True then gateway6SubKey else gatewaySubKey))
     = Inr ''bogus'' \<and>
   ParseIP demo_net ''bogus'' = None \<and>
   filter is_Set_IP (fst (ConfigStaticIP demo_net demo_feature ''xenserver/device/vif/1'' [] True OTHER))
     = [] \<and>
   filter is_Set_gateway (fst (ConfigStaticIP demo_net demo_feature ''xenserver/device/vif/1'' [] True OTHER))
     = []"
  using
    ConfigStaticIP_fields_independent [where net = demo_net and f = demo_feature
      and vifKey = "''xenserver/device/vif/1''" and mac = "[]" and ?isIPv6.0 = False
      and osType = OTHER and address = "''not-an-ip''"
      and msg = "''invalid CIDR address: not-an-ip''"
      and gateway = "''192.168.0.1''" and gatewayAddress = "''192.168.0.1''"]
    ConfigStaticIP_fields_independent [where net = demo_net and f = demo_feature
      and vifKey = "''xenserver/device/vif/0''" and mac = "[]" and ?isIPv6.0 = True
      and osType = CENTOS and address = "''fd00::2/64''"
      and ip = "''fd00::2''" and ipNet = "''fd00::/64''" and err' = "Error ''ENOENT''"]
    ConfigStaticIP_fields_independent [where net = demo_net and f = demo_feature
      and vifKey = "''xenserver/device/vif/1''" and mac = "[]" and ?isIPv6.0 = True
      and osType = OTHER and err = "Error ''ENOENT''" and gateway = "''bogus''"]
  by (simp add: demo_feature_def demo_client_def read_from_def demo_entries_def demo_net_def
      addressSubKey_def gatewaySubKey_def address6SubKey_def gateway6SubKey_def
      OTHER_def CENTOS_def)

subsection \<open>Classifying the operating system\<close>

lemma scan_lines_eq:
  "scan_lines lines = Some (if \<exists>line \<in> set lines. names_centos line then CENTOS else OTHER)"
  by (induction lines) (auto simp: names_centos_def Contains_def SplitN2_def Let_def)

text \<open>
  C4, as amended. \<open>GetCurrentOSType\<close> returns \<open>OTHER\<close> when the descriptor file cannot be
  opened. Otherwise it returns \<open>CENTOS\<close> exactly when some line holds an equals sign
  with, before the first one, the key \<open>os_distro\<close> up to surrounding whitespace and,
  after it, the value \<open>centos\<close> once surrounding whitespace, then every leading and
  trailing double quote, then whitespace again have been removed; in every other case
  it returns \<open>OTHER\<close>. It always returns: the index into \<open>parts\<close> is never out of range.
\<close>

theorem GetCurrentOSType_classifies:
  "GetCurrentOSType None = Some OTHER \<and>
   GetCurrentOSType (Some lines) =
     Some (if \<exists>line \<in> set lines. names_centos line then CENTOS else OTHER)"
  by (simp add: GetCurrentOSType_def scan_lines_eq)

lemmas trim_defs = TrimSpace_def Trim_def asciiSpace_def space2_def space3_def dquote_def

theorem GetCurrentOSType_classifies_witness:
  "names_centos (''os_distro='' @ [dquote] @ ''centos'' @ [dquote]) \<and>
   GetCurrentOSType (Some [''os_name=CentOS'', ''os_distro='' @ [dquote] @ ''centos'' @ [dquote]])
     = Some CENTOS \<and>
   \<not> names_centos (''os_distro='' @ [dquote] @ ''ubuntu'' @ [dquote]) \<and>
   GetCurrentOSType (Some [''os_distro='' @ [dquote] @ ''ubuntu'' @ [dquote]]) = Some OTHER \<and>
   GetCurrentOSType None = Some OTHER"
proof -
  have a: "names_centos (''os_distro='' @ [dquote] @ ''centos'' @ [dquote])"
    by (simp add: names_centos_def trim_defs)
  have b: "\<not> names_centos (''os_distro='' @ [dquote] @ ''ubuntu'' @ [dquote])"
    by (simp add: names_centos_def trim_defs)
  show ?thesis
    using a b
      GetCurrentOSType_classifies
        [of "[''os_name=CentOS'', ''os_distro='' @ [dquote] @ ''centos'' @ [dquote]]"]
      GetCurrentOSType_classifies [of "[''os_distro='' @ [dquote] @ ''ubuntu'' @ [dquote]]"]
    by simp
qed

text \<open>
  C4, as stated, fails: a value wrapped in two layers of double quotes is still read as
  \<open>centos\<close> by the code, since \<^verbatim>\<open>strings.Trim\<close> removes every layer, whereas
  removing one layer leaves a quoted value that is not \<open>centos\<close>.
\<close>

theorem one_layer_of_quotes_counterexample:
  "GetCurrentOSType (Some [''os_distro='' @ [dquote, dquote] @ ''centos'' @ [dquote, dquote]])
     = Some CENTOS \<and>
   classify_as_specified (Some [''os_distro='' @ [dquote, dquote] @ ''centos'' @ [dquote, dquote]])
     = OTHER \<and>
   GetCurrentOSType (Some [''os_distro='' @ [dquote, dquote] @ ''centos'' @ [dquote, dquote]])
     \<noteq> Some (classify_as_specified
          (Some [''os_distro='' @ [dquote, dquote] @ ''centos'' @ [dquote, dquote]]))"
  by (simp add: GetCurrentOSType_def classify_as_specified_def Contains_def SplitN2_def
      trim_one_layer_def trim_defs OTHER_def CENTOS_def)

end
